theory Spec2Isabelle
  imports Complex_Main "HOL-Library.List_Lexorder" "HOL-Library.Product_Lexorder"
    "HOL-Library.Multiset"
begin

section \<open>Python values\<close>

text \<open>
  A Python \<^verbatim>\<open>str\<close> is a sequence of Unicode code points, so it is modelled as a list
  of natural numbers; \<open>u\<close> turns an ASCII literal of the source into such a list.
\<close>

type_synonym codepoint = nat
type_synonym pystr = "codepoint list"

definition cp :: "char \<Rightarrow> codepoint" where
  "cp c = of_char c"

definition u :: "string \<Rightarrow> pystr" where
  "u s = map cp s"

text \<open>
  The cells of the data frame, and what \<^verbatim>\<open>row.get\<close> returns for a column the frame does
  not have (\<open>PNone\<close>). A missing cell is the float NaN. Numeric cells are integers or
  finite floats; a finite float is represented by its exact value.
\<close>

datatype pyval = PNone | PNaN | PStr pystr | PInt int | PFloat rat

datatype error = IndexError | AttributeError | ValueError | KeyError | TypeError | ReError

text \<open>
  What the interpreter and its libraries supply and the script does not define: the
  Unicode tables (compatibility decomposition, character classes and case folding of the
  code points from 128 on, \<^verbatim>\<open>int\<close> of a text with such code points), the built-in
  \<^verbatim>\<open>hash\<close>, which is seeded anew by every interpreter process for \<^verbatim>\<open>str\<close> arguments,
  and the decimal rendering of a float. On ASCII everything is defined below.
\<close>

record pyenv =
  uni_decomp :: "codepoint \<Rightarrow> pystr"
  uni_isalnum :: "codepoint \<Rightarrow> bool"
  uni_ic_match :: "codepoint \<Rightarrow> codepoint \<Rightarrow> bool"
  uni_int :: "pystr \<Rightarrow> int option"
  py_hash :: "pyval \<Rightarrow> int"
  float_repr :: "rat \<Rightarrow> pystr"

definition is_ascii :: "codepoint \<Rightarrow> bool" where
  "is_ascii c = (c < 128)"

definition is_digit :: "codepoint \<Rightarrow> bool" where
  "is_digit c = (48 \<le> c \<and> c \<le> 57)"

definition is_upper :: "codepoint \<Rightarrow> bool" where
  "is_upper c = (65 \<le> c \<and> c \<le> 90)"

definition is_lower :: "codepoint \<Rightarrow> bool" where
  "is_lower c = (97 \<le> c \<and> c \<le> 122)"

text \<open>\<^verbatim>\<open>c.isalnum()\<close> and \<^verbatim>\<open>c.lower()\<close> of an ASCII character.\<close>

definition ascii_isalnum :: "codepoint \<Rightarrow> bool" where
  "ascii_isalnum c = (is_digit c \<or> is_upper c \<or> is_lower c)"

definition ascii_lower :: "codepoint \<Rightarrow> codepoint" where
  "ascii_lower c = (if is_upper c then c + 32 else c)"

text \<open>The characters \<^verbatim>\<open>str.split()\<close> and \<^verbatim>\<open>str.isspace()\<close> treat as white space, below 128.\<close>

definition ascii_isspace :: "codepoint \<Rightarrow> bool" where
  "ascii_isspace c = ((9 \<le> c \<and> c \<le> 13) \<or> (28 \<le> c \<and> c \<le> 32))"

subsection \<open>Decimal rendering: \<^verbatim>\<open>str\<close> of an integer\<close>

function str_nat :: "nat \<Rightarrow> pystr" where
  "str_nat n = (if n < 10 then [48 + n] else str_nat (n div 10) @ [48 + n mod 10])"
  by pat_completeness auto
termination
  by (relation "measure id") auto

declare str_nat.simps [simp del]

definition str_int :: "int \<Rightarrow> pystr" where
  "str_int i = (if i < 0 then 45 # str_nat (nat (- i)) else str_nat (nat i))"

text \<open>\<^verbatim>\<open>str(x)\<close>, also what an f-string writes for \<^verbatim>\<open>{x}\<close>.\<close>

fun py_str :: "pyenv \<Rightarrow> pyval \<Rightarrow> pystr" where
  "py_str env PNone = u ''None''"
| "py_str env PNaN = u ''nan''"
| "py_str env (PStr s) = s"
| "py_str env (PInt i) = str_int i"
| "py_str env (PFloat r) = float_repr env r"

section \<open>Text sanitizer\<close>

text \<open>
  \<^verbatim>\<open>unicodedata.normalize('NFKD', text)\<close>: every code point is replaced by its full
  compatibility decomposition; an ASCII character is its own decomposition. (The
  canonical reordering that follows only permutes combining marks, none of them ASCII,
  and the next step drops them.)
\<close>

definition normalize_NFKD :: "pyenv \<Rightarrow> pystr \<Rightarrow> pystr" where
  "normalize_NFKD env s = concat (map (\<lambda>c. if is_ascii c then [c] else uni_decomp env c) s)"

text \<open>\<^verbatim>\<open>.encode('ascii', 'ignore').decode('utf-8')\<close>: what is not ASCII is dropped.\<close>

definition encode_ascii_ignore :: "pystr \<Rightarrow> pystr" where
  "encode_ascii_ignore s = filter is_ascii s"

text \<open>\<^verbatim>\<open>text.replace(char, escaped_char)\<close> for a pattern of one character.\<close>

definition replace_char :: "codepoint \<Rightarrow> pystr \<Rightarrow> pystr \<Rightarrow> pystr" where
  "replace_char c r s = concat (map (\<lambda>x. if x = c then r else [x]) s)"

definition bslash :: codepoint where
  "bslash = 92"

definition replacements :: "(codepoint \<times> pystr) list" where
  "replacements =
     [(cp CHR ''&'', [bslash, cp CHR ''&'']), (cp CHR ''%'', [bslash, cp CHR ''%'']),
      (cp CHR ''$'', [bslash, cp CHR ''$'']), (cp CHR ''#'', [bslash, cp CHR ''#'']),
      (cp CHR ''_'', [bslash, cp CHR ''_'']), (cp CHR ''{'', [bslash, cp CHR ''{'']),
      (cp CHR ''}'', [bslash, cp CHR ''}''])]"

definition sanitize_text :: "pyenv \<Rightarrow> pyval \<Rightarrow> pystr" where
  "sanitize_text env text =
     (case text of
        PStr s \<Rightarrow>
          foldl (\<lambda>t (c, escaped). replace_char c escaped t)
            (encode_ascii_ignore (normalize_NFKD env s)) replacements
      | _ \<Rightarrow> [])"

section \<open>Key generator\<close>

text \<open>\<^verbatim>\<open>s.split(',')\<close>: the pieces between the separators; never an empty list.\<close>

fun split_on :: "codepoint \<Rightarrow> pystr \<Rightarrow> pystr list" where
  "split_on c [] = [[]]"
| "split_on c (x # xs) =
     (if x = c then [] # split_on c xs
      else (case split_on c xs of w # ws \<Rightarrow> (x # w) # ws | [] \<Rightarrow> [[x]]))"

text \<open>
  \<^verbatim>\<open>s.split()\<close> of an ASCII text (the sanitizer's results are ASCII): the maximal runs of
  characters that are not white space.
\<close>

fun split_ws :: "pystr \<Rightarrow> pystr list" where
  "split_ws [] = []"
| "split_ws (x # xs) =
     (if ascii_isspace x then split_ws xs
      else (case xs of
              [] \<Rightarrow> [[x]]
            | y # ys \<Rightarrow>
                if ascii_isspace y then [x] # split_ws xs
                else (case split_ws xs of w # ws \<Rightarrow> (x # w) # ws | [] \<Rightarrow> [[x]])))"

text \<open>\<^verbatim>\<open>xs[0]\<close> and \<^verbatim>\<open>xs[-1]\<close>: IndexError on the empty list.\<close>

definition index_first :: "'a list \<Rightarrow> error + 'a" where
  "index_first xs = (case xs of [] \<Rightarrow> Inl IndexError | x # _ \<Rightarrow> Inr x)"

definition index_last :: "'a list \<Rightarrow> error + 'a" where
  "index_last xs = (if xs = [] then Inl IndexError else Inr (last xs))"

text \<open>\<^verbatim>\<open>s.lower()\<close> and \<^verbatim>\<open>''.join(c for c in s if c.isalnum())\<close> of an ASCII text.\<close>

definition lower_str :: "pystr \<Rightarrow> pystr" where
  "lower_str s = map ascii_lower s"

definition keep_alnum :: "pystr \<Rightarrow> pystr" where
  "keep_alnum s = filter ascii_isalnum s"

text \<open>
  \<^verbatim>\<open>int(s)\<close> of an ASCII text: white space around it is dropped, one sign may lead, and the
  digits may be grouped by single underscores. Anything else is a ValueError (\<open>None\<close>).
\<close>

definition int_isspace :: "codepoint \<Rightarrow> bool" where
  "int_isspace c = ((9 \<le> c \<and> c \<le> 13) \<or> c = 32)"

definition strip_ws :: "pystr \<Rightarrow> pystr" where
  "strip_ws s = rev (dropWhile int_isspace (rev (dropWhile int_isspace s)))"

fun parse_digits :: "bool \<Rightarrow> nat \<Rightarrow> pystr \<Rightarrow> nat option" where
  "parse_digits prev acc [] = (if prev then Some acc else None)"
| "parse_digits prev acc (c # cs) =
     (if is_digit c then parse_digits True (acc * 10 + (c - 48)) cs
      else if c = cp CHR ''_'' \<and> prev then parse_digits False acc cs
      else None)"

definition ascii_int :: "pystr \<Rightarrow> int option" where
  "ascii_int s =
     (case strip_ws s of
        [] \<Rightarrow> None
      | c # cs \<Rightarrow>
          if c = cp CHR ''-'' then map_option (\<lambda>n. - int n) (parse_digits False 0 cs)
          else if c = cp CHR ''+'' then map_option int (parse_digits False 0 cs)
          else map_option int (parse_digits False 0 (c # cs)))"

definition int_of_str :: "pyenv \<Rightarrow> pystr \<Rightarrow> int option" where
  "int_of_str env s = (if list_all is_ascii s then ascii_int s else uni_int env s)"

text \<open>\<^verbatim>\<open>int(x)\<close>: a float is truncated towards zero.\<close>

definition trunc :: "rat \<Rightarrow> int" where
  "trunc r = (if 0 \<le> r then \<lfloor>r\<rfloor> else \<lceil>r\<rceil>)"

fun py_int :: "pyenv \<Rightarrow> pyval \<Rightarrow> error + int" where
  "py_int env PNone = Inl TypeError"
| "py_int env PNaN = Inl ValueError"
| "py_int env (PStr s) = (case int_of_str env s of None \<Rightarrow> Inl ValueError | Some i \<Rightarrow> Inr i)"
| "py_int env (PInt i) = Inr i"
| "py_int env (PFloat r) = Inr (trunc r)"

text \<open>\<^verbatim>\<open>pd.notna(x)\<close> of a scalar.\<close>

fun notna :: "pyval \<Rightarrow> bool" where
  "notna PNone = False"
| "notna PNaN = False"
| "notna _ = True"

text \<open>
  The body of the \<^verbatim>\<open>try\<close> block of \<^verbatim>\<open>generate_bib_key\<close>, in the order of its
  statements: the last name of the first author, the first word of the title, the year.
\<close>

definition clean_author :: "pyenv \<Rightarrow> pyval \<Rightarrow> error + pystr" where
  "clean_author env authors =
     (let s_authors = sanitize_text env (PStr (py_str env authors))
      in case index_first (split_on (cp CHR '','') s_authors) of
           Inl e \<Rightarrow> Inl e
         | Inr first_author \<Rightarrow>
             (case index_last (split_ws first_author) of
                Inl e \<Rightarrow> Inl e
              | Inr lastname \<Rightarrow> Inr (keep_alnum (lower_str lastname))))"

definition clean_title :: "pyenv \<Rightarrow> pyval \<Rightarrow> error + pystr" where
  "clean_title env title =
     (let s_title = sanitize_text env (PStr (py_str env title))
      in case index_first (split_ws s_title) of
           Inl e \<Rightarrow> Inl e
         | Inr first_word \<Rightarrow> Inr (keep_alnum (lower_str first_word)))"

definition year_str :: "pyenv \<Rightarrow> pyval \<Rightarrow> error + pystr" where
  "year_str env year =
     (if notna year
      then (case py_int env year of Inl e \<Rightarrow> Inl e | Inr n \<Rightarrow> Inr (str_int n))
      else Inr (u ''nd''))"

definition key_body :: "pyenv \<Rightarrow> pyval \<Rightarrow> pyval \<Rightarrow> pyval \<Rightarrow> error + pystr" where
  "key_body env authors year title =
     (case clean_author env authors of
        Inl e \<Rightarrow> Inl e
      | Inr author \<Rightarrow>
          (case clean_title env title of
             Inl e \<Rightarrow> Inl e
           | Inr word \<Rightarrow>
               (case year_str env year of
                  Inl e \<Rightarrow> Inl e
                | Inr y \<Rightarrow> Inr (author @ y @ word))))"

text \<open>The fallback of the \<^verbatim>\<open>except\<close> clause: \<^verbatim>\<open>f"ref_{abs(hash(title))}"\<close>.\<close>

definition fallback_key :: "pyenv \<Rightarrow> pyval \<Rightarrow> pystr" where
  "fallback_key env title = u ''ref_'' @ str_int \<bar>py_hash env title\<bar>"

definition generate_bib_key :: "pyenv \<Rightarrow> pyval \<Rightarrow> pyval \<Rightarrow> pyval \<Rightarrow> error + pystr" where
  "generate_bib_key env authors year title =
     (case key_body env authors year title of
        Inr key \<Rightarrow> Inr key
      | Inl e \<Rightarrow>
          if e = IndexError \<or> e = AttributeError \<or> e = ValueError
          then Inr (fallback_key env title)
          else Inl e)"

section \<open>The data frame\<close>

text \<open>
  The loaded table: the names of its columns and its rows, a row giving the cell of each
  column. What a row holds under a name that is not a column is never read.
\<close>

type_synonym row = "string \<Rightarrow> pyval"

record table =
  columns :: "string list"
  rows :: "row list"

text \<open>\<^verbatim>\<open>row.get(c)\<close>, \<^verbatim>\<open>row.get(c, default)\<close> and \<^verbatim>\<open>row[c]\<close>.\<close>

definition row_get :: "table \<Rightarrow> row \<Rightarrow> string \<Rightarrow> pyval" where
  "row_get df r c = (if c \<in> set (columns df) then r c else PNone)"

definition row_get_default :: "table \<Rightarrow> row \<Rightarrow> string \<Rightarrow> pyval \<Rightarrow> pyval" where
  "row_get_default df r c d = (if c \<in> set (columns df) then r c else d)"

definition row_index :: "table \<Rightarrow> row \<Rightarrow> string \<Rightarrow> error + pyval" where
  "row_index df r c = (if c \<in> set (columns df) then Inr (r c) else Inl KeyError)"

subsection \<open>Unique keys\<close>

text \<open>
  The first loop of \<^verbatim>\<open>analyze_literature\<close>; \<open>seen_keys_count\<close> is the
  \<^verbatim>\<open>defaultdict(int)\<close>, \<open>bib_keys\<close> the list built so far.
\<close>

definition base_key_of :: "pyenv \<Rightarrow> table \<Rightarrow> row \<Rightarrow> error + pystr" where
  "base_key_of env df r =
     generate_bib_key env (row_get df r ''Authors'') (row_get df r ''Year'') (row_get df r ''Title'')"

fun bib_keys_loop ::
  "pyenv \<Rightarrow> table \<Rightarrow> row list \<Rightarrow> (pystr \<Rightarrow> nat) \<Rightarrow> pystr list \<Rightarrow> error + pystr list" where
  "bib_keys_loop env df [] seen_keys_count bib_keys = Inr bib_keys"
| "bib_keys_loop env df (r # rs) seen_keys_count bib_keys =
     (case base_key_of env df r of
        Inl e \<Rightarrow> Inl e
      | Inr base_key \<Rightarrow>
          (let count = seen_keys_count base_key;
               unique_key = (if count = 0 then base_key else base_key @ str_nat (count + 1))
           in bib_keys_loop env df rs (seen_keys_count(base_key := count + 1))
                (bib_keys @ [unique_key])))"

definition make_bib_keys :: "pyenv \<Rightarrow> table \<Rightarrow> error + pystr list" where
  "make_bib_keys env df = bib_keys_loop env df (rows df) (\<lambda>_. 0) []"

subsection \<open>Combined text\<close>

definition text_columns :: "string list" where
  "text_columns = [''Title'', ''Abstract'', ''Keywords'', ''Index Keywords'']"

definition fillna_empty :: "pyval \<Rightarrow> pyval" where
  "fillna_empty v = (case v of PNaN \<Rightarrow> PStr [] | _ \<Rightarrow> v)"

text \<open>\<^verbatim>\<open>sep.join(xs)\<close>: a TypeError when an item is not a \<^verbatim>\<open>str\<close>.\<close>

fun join_str :: "pystr \<Rightarrow> pystr list \<Rightarrow> pystr" where
  "join_str sep [] = []"
| "join_str sep [x] = x"
| "join_str sep (x # xs) = x @ sep @ join_str sep xs"

fun as_strs :: "pyval list \<Rightarrow> error + pystr list" where
  "as_strs [] = Inr []"
| "as_strs (PStr s # vs) = (case as_strs vs of Inl e \<Rightarrow> Inl e | Inr ss \<Rightarrow> Inr (s # ss))"
| "as_strs (_ # vs) = Inl TypeError"

definition join_vals :: "pystr \<Rightarrow> pyval list \<Rightarrow> error + pystr" where
  "join_vals sep vs = (case as_strs vs of Inl e \<Rightarrow> Inl e | Inr ss \<Rightarrow> Inr (join_str sep ss))"

text \<open>Running a fallible step over a list, stopping at the first error.\<close>

fun map_err :: "('a \<Rightarrow> error + 'b) \<Rightarrow> 'a list \<Rightarrow> error + 'b list" where
  "map_err f [] = Inr []"
| "map_err f (x # xs) =
     (case f x of
        Inl e \<Rightarrow> Inl e
      | Inr y \<Rightarrow> (case map_err f xs of Inl e \<Rightarrow> Inl e | Inr ys \<Rightarrow> Inr (y # ys)))"

text \<open>
  \<^verbatim>\<open>df[text_columns].fillna('').agg(' '.join, axis=1)\<close>: selecting a column the frame
  does not have is a KeyError.
\<close>

definition combined_text :: "table \<Rightarrow> error + pystr list" where
  "combined_text df =
     (if \<not> set text_columns \<subseteq> set (columns df) then Inl KeyError
      else map_err (\<lambda>r. join_vals (u '' '') (map (\<lambda>c. fillna_empty (r c)) text_columns)) (rows df))"

section \<open>Combination detector\<close>

subsection \<open>The configuration\<close>

definition NANOPARTICLE_MAP :: "(pystr \<times> pystr list) list" where
  "NANOPARTICLE_MAP =
     [(u ''Alumina'', [u ''Al2O3'', u ''aluminum oxide'', u ''alumina'']),
      (u ''Titania'', [u ''TiO2'', u ''titanium dioxide'', u ''titania'']),
      (u ''Silica'', [u ''SiO2'', u ''silicon dioxide'', u ''silica'']),
      (u ''Copper Oxide'', [u ''CuO'', u ''cupric oxide'', u ''copper oxide'']),
      (u ''Zinc Oxide'', [u ''ZnO'', u ''zinc oxide'']),
      (u ''Magnetite'', [u ''Fe3O4'', u ''magnetite'', u ''iron oxide'']),
      (u ''Zirconia'', [u ''ZrO2'', u ''zirconium dioxide'', u ''zirconia'']),
      (u ''Graphene'',
         [u ''graphene'', u ''graphene nanoplatelets'', u ''GNP'', u ''graphene oxide'', u ''GO'']),
      (u ''Carbon Nanotube'', [u ''carbon nanotube'', u ''CNT'', u ''SWCNT'', u ''MWCNT'']),
      (u ''Diamond'', [u ''diamond'', u ''nano-diamond'']),
      (u ''Silver'', [u ''silver'', u ''Ag'']),
      (u ''Copper'', [u ''copper'', u ''Cu'']),
      (u ''Gold'', [u ''gold'', u ''Au'']),
      (u ''MXene'', [u ''mxene'', u ''ti3c2tx'']),
      (u ''Molybdenum Disulfide'', [u ''MoS2'', u ''molybdenum disulfide''])]"

definition ce :: "string \<Rightarrow> pystr" where
  "ce s = bslash # u ''ce{'' @ u s @ u ''}''"

definition LATEX_SYMBOL_MAP :: "(pystr \<times> pystr) list" where
  "LATEX_SYMBOL_MAP =
     [(u ''Alumina'', ce ''Al2O3''), (u ''Titania'', ce ''TiO2''), (u ''Silica'', ce ''SiO2''),
      (u ''Copper Oxide'', ce ''CuO''), (u ''Zinc Oxide'', ce ''ZnO''),
      (u ''Magnetite'', ce ''Fe3O4''), (u ''Zirconia'', ce ''ZrO2''),
      (u ''Graphene'', u ''Graphene''), (u ''Carbon Nanotube'', u ''CNT''),
      (u ''Diamond'', u ''Diamond''), (u ''Silver'', ce ''Ag''), (u ''Copper'', ce ''Cu''),
      (u ''Gold'', ce ''Au''), (u ''MXene'', u ''MXene''),
      (u ''Molybdenum Disulfide'', ce ''MoS2'')]"

subsection \<open>The regular expressions the detector builds\<close>

text \<open>\<^verbatim>\<open>re.escape\<close>: a backslash before each of the characters the module lists as special.\<close>

definition special_chars :: pystr where
  "special_chars = u ''()[]{}?*+-|^$'' @ [bslash] @ u ''.&~# '' @ [9, 10, 13, 11, 12]"

definition re_escape :: "pystr \<Rightarrow> pystr" where
  "re_escape s = concat (map (\<lambda>c. if c \<in> set special_chars then [bslash, c] else [c]) s)"

text \<open>
  The patterns of the detector are sequences of literal characters and \<^verbatim>\<open>\b\<close>
  assertions. The parser reads that fragment of the pattern language: a backslash before
  \<^verbatim>\<open>b\<close> is the word-boundary assertion, a backslash before a character that is no ASCII
  letter or digit is that character, and a character that is no metacharacter is itself.
  Every other construct is outside the fragment (\<open>None\<close>).
\<close>

datatype re_item = Lit codepoint | WordBoundary

definition metachars :: pystr where
  "metachars = u ''.[{()*+?^$|''"

fun re_parse :: "pystr \<Rightarrow> re_item list option" where
  "re_parse [] = Some []"
| "re_parse [c] =
     (if c = bslash \<or> c \<in> set metachars then None else Some [Lit c])"
| "re_parse (c # d # ds) =
     (if c = bslash then
        (if d = cp CHR ''b'' then map_option ((#) WordBoundary) (re_parse ds)
         else if is_ascii d \<and> ascii_isalnum d then None
         else map_option ((#) (Lit d)) (re_parse ds))
      else if c \<in> set metachars then None
      else map_option ((#) (Lit c)) (re_parse (d # ds)))"

text \<open>
  \<^verbatim>\<open>re.IGNORECASE\<close>: a pattern character and a text character match when their lower-case
  forms agree; \<^verbatim>\<open>\w\<close> is a letter, a digit or the underscore.
\<close>

definition ic_match :: "pyenv \<Rightarrow> codepoint \<Rightarrow> codepoint \<Rightarrow> bool" where
  "ic_match env p c =
     (if is_ascii p \<and> is_ascii c then ascii_lower p = ascii_lower c else uni_ic_match env p c)"

definition is_word :: "pyenv \<Rightarrow> codepoint \<Rightarrow> bool" where
  "is_word env c = (if is_ascii c then ascii_isalnum c \<or> c = cp CHR ''_'' else uni_isalnum env c)"

text \<open>\<^verbatim>\<open>\b\<close> at position \<open>i\<close>: exactly one of the characters before and after is a word character.\<close>

definition at_boundary :: "pyenv \<Rightarrow> pystr \<Rightarrow> nat \<Rightarrow> bool" where
  "at_boundary env text i =
     (let this = (i < length text \<and> is_word env (text ! i));
          that = (0 < i \<and> is_word env (text ! (i - 1)))
      in this \<noteq> that)"

fun match_here :: "pyenv \<Rightarrow> re_item list \<Rightarrow> pystr \<Rightarrow> nat \<Rightarrow> bool" where
  "match_here env [] text i = True"
| "match_here env (Lit p # ps) text i =
     (i < length text \<and> ic_match env p (text ! i) \<and> match_here env ps text (Suc i))"
| "match_here env (WordBoundary # ps) text i =
     (at_boundary env text i \<and> match_here env ps text i)"

text \<open>\<^verbatim>\<open>re.search(pattern, text, re.IGNORECASE)\<close>, as a truth value: is there a match.\<close>

definition re_search :: "pyenv \<Rightarrow> pystr \<Rightarrow> pystr \<Rightarrow> error + bool" where
  "re_search env pattern text =
     (case re_parse pattern of
        None \<Rightarrow> Inl ReError
      | Some items \<Rightarrow> Inr (list_ex (match_here env items text) [0..<Suc (length text)]))"

subsection \<open>The materials of one article\<close>

text \<open>\<^verbatim>\<open>any(re.search(r'\b' + re.escape(v) + r'\b', text, re.IGNORECASE) for v in variations)\<close>\<close>

fun any_variation :: "pyenv \<Rightarrow> pystr \<Rightarrow> pystr list \<Rightarrow> error + bool" where
  "any_variation env text [] = Inr False"
| "any_variation env text (v # vs) =
     (case re_search env ([bslash, cp CHR ''b''] @ re_escape v @ [bslash, cp CHR ''b'']) text of
        Inl e \<Rightarrow> Inl e
      | Inr True \<Rightarrow> Inr True
      | Inr False \<Rightarrow> any_variation env text vs)"

text \<open>
  A Python \<^verbatim>\<open>set\<close> of names is the list of its members in the order they were added.
\<close>

definition set_add :: "'a \<Rightarrow> 'a list \<Rightarrow> 'a list" where
  "set_add x s = (if x \<in> set s then s else s @ [x])"

fun find_nanoparticles ::
  "pyenv \<Rightarrow> pystr \<Rightarrow> (pystr \<times> pystr list) list \<Rightarrow> pystr list \<Rightarrow> error + pystr list" where
  "find_nanoparticles env text [] nanoparticles_found = Inr nanoparticles_found"
| "find_nanoparticles env text ((name, variations) # rest) nanoparticles_found =
     (case any_variation env text variations of
        Inl e \<Rightarrow> Inl e
      | Inr True \<Rightarrow> find_nanoparticles env text rest (set_add name nanoparticles_found)
      | Inr False \<Rightarrow> find_nanoparticles env text rest nanoparticles_found)"

definition nanoparticles_of :: "pyenv \<Rightarrow> pystr \<Rightarrow> error + pystr list" where
  "nanoparticles_of env text = find_nanoparticles env text NANOPARTICLE_MAP []"

text \<open>
  \<^verbatim>\<open>tuple(sorted(list(nanoparticles_found)))\<close>: the members in ascending order, whatever
  order the set lists them in.
\<close>

definition combo_key :: "pystr list \<Rightarrow> pystr list" where
  "combo_key nanoparticles_found = sort nanoparticles_found"

section \<open>Aggregator and sorter\<close>

text \<open>
  \<^verbatim>\<open>combination_keys\<close> is a \<^verbatim>\<open>defaultdict(list)\<close>: an association list in insertion
  order. Appending under a key that is present extends its list in place; a new key goes
  to the end.
\<close>

fun dict_append :: "('k \<times> 'v list) list \<Rightarrow> 'k \<Rightarrow> 'v \<Rightarrow> ('k \<times> 'v list) list" where
  "dict_append [] k v = [(k, [v])]"
| "dict_append ((k', vs) # d) k v =
     (if k' = k then (k', vs @ [v]) # d else (k', vs) # dict_append d k v)"

record article_counts =
  mono :: nat
  binary :: nat
  ternary :: nat
  other :: nat

definition count_article :: "nat \<Rightarrow> article_counts \<Rightarrow> article_counts" where
  "count_article num_found c =
     (if num_found = 1 then c\<lparr>mono := mono c + 1\<rparr>
      else if num_found = 2 then c\<lparr>binary := binary c + 1\<rparr>
      else if num_found = 3 then c\<lparr>ternary := ternary c + 1\<rparr>
      else c\<lparr>other := other c + 1\<rparr>)"

text \<open>
  The second loop of \<^verbatim>\<open>analyze_literature\<close>, over the rows with their combined text and
  their key.
\<close>

fun combinations_loop ::
  "pyenv \<Rightarrow> (pystr \<times> pystr) list \<Rightarrow> (pystr list \<times> pystr list) list \<Rightarrow> article_counts \<Rightarrow>
   error + (pystr list \<times> pystr list) list \<times> article_counts" where
  "combinations_loop env [] combination_keys counts = Inr (combination_keys, counts)"
| "combinations_loop env ((text, bib_key) # rest) combination_keys counts =
     (case nanoparticles_of env text of
        Inl e \<Rightarrow> Inl e
      | Inr nanoparticles_found \<Rightarrow>
          (let num_found = length nanoparticles_found
           in if num_found > 0
              then combinations_loop env rest
                     (dict_append combination_keys (combo_key nanoparticles_found) bib_key)
                     (count_article num_found counts)
              else combinations_loop env rest combination_keys counts))"

record item =
  combo :: "pystr list"
  freq :: nat
  keys :: "pystr list"

definition make_item :: "pystr list \<times> pystr list \<Rightarrow> item" where
  "make_item ck = \<lparr>combo = fst ck, freq = length (snd ck), keys = snd ck\<rparr>"

definition sort_key_of :: "item \<Rightarrow> nat \<times> nat" where
  "sort_key_of x = (length (combo x), freq x)"

text \<open>
  \<^verbatim>\<open>sorted(xs, key=f, reverse=True)\<close>: the list is reversed, sorted stably in ascending
  order and reversed again, which is how the interpreter keeps a descending sort stable.
\<close>

definition sorted_reverse :: "('a \<Rightarrow> 'b::linorder) \<Rightarrow> 'a list \<Rightarrow> 'a list" where
  "sorted_reverse f xs = rev (sort_key f (rev xs))"

definition make_table_data :: "(pystr list \<times> pystr list) list \<Rightarrow> item list" where
  "make_table_data combination_keys = sorted_reverse sort_key_of (map make_item combination_keys)"

section \<open>Formatter\<close>

definition newline :: codepoint where
  "newline = 10"

text \<open>\<^verbatim>\<open>LATEX_SYMBOL_MAP.get(name, name)\<close>\<close>

definition latex_symbol :: "pystr \<Rightarrow> pystr" where
  "latex_symbol name = (case map_of LATEX_SYMBOL_MAP name of Some s \<Rightarrow> s | None \<Rightarrow> name)"

definition latex_row :: "item \<Rightarrow> pystr" where
  "latex_row x =
     (let latex_combo_str = join_str (u '' + '') (map latex_symbol (combo x));
          cite_str = bslash # u ''cite{'' @ join_str (u '','') (keys x) @ u ''}''
      in u ''  '' @ latex_combo_str @ u '' & '' @ str_nat (freq x) @ u '' & '' @ cite_str
           @ u '' '' @ [bslash, bslash] @ u '' '' @ bslash # u ''hline'')"

text \<open>\<^verbatim>\<open>list(dict.fromkeys(xs))\<close>: the first occurrence of every element, in order.\<close>

definition dict_fromkeys :: "'a list \<Rightarrow> 'a list" where
  "dict_fromkeys xs = foldl (\<lambda>d k. set_add k d) [] xs"

text \<open>
  \<^verbatim>\<open>df.set_index('bib_key').loc[key]\<close>: the rows filed under the key. One row is a
  Series; several rows are a frame, on which the entry's first test raises.
\<close>

definition loc :: "pystr list \<Rightarrow> row list \<Rightarrow> pystr \<Rightarrow> row list" where
  "loc bib_keys rs key = map snd (filter (\<lambda>kr. fst kr = key) (zip bib_keys rs))"

definition make_pages :: "pyenv \<Rightarrow> table \<Rightarrow> row \<Rightarrow> error + pystr" where
  "make_pages env df article =
     (case row_index df article ''Page start'' of
        Inl e \<Rightarrow> Inl e
      | Inr page_start \<Rightarrow>
          if \<not> notna page_start then Inr []
          else (case row_index df article ''Page end'' of
                  Inl e \<Rightarrow> Inl e
                | Inr page_end \<Rightarrow>
                    if \<not> notna page_end then Inr []
                    else (case py_int env page_start of
                            Inl e \<Rightarrow> Inl e
                          | Inr a \<Rightarrow>
                              (case py_int env page_end of
                                 Inl e \<Rightarrow> Inl e
                               | Inr b \<Rightarrow> Inr (str_int a @ u ''--'' @ str_int b)))))"

definition bib_entry :: "pyenv \<Rightarrow> table \<Rightarrow> pystr \<Rightarrow> row \<Rightarrow> error + pystr" where
  "bib_entry env df key article =
     (case make_pages env df article of
        Inl e \<Rightarrow> Inl e
      | Inr pages \<Rightarrow>
          (case py_int env (row_get_default df article ''Year'' (PInt 0)) of
             Inl e \<Rightarrow> Inl e
           | Inr year \<Rightarrow>
               Inr (u ''@article{'' @ key @ u '','' @ [newline]
                  @ u ''  title={''
                  @ sanitize_text env (row_get_default df article ''Title'' (PStr []))
                  @ u ''},'' @ [newline]
                  @ u ''  author={''
                  @ replace_char (cp CHR '','') (u '' and'')
                      (sanitize_text env (row_get_default df article ''Authors'' (PStr [])))
                  @ u ''},'' @ [newline]
                  @ u ''  journal={''
                  @ sanitize_text env (row_get_default df article ''Source title'' (PStr []))
                  @ u ''},'' @ [newline]
                  @ u ''  volume={''
                  @ py_str env (row_get_default df article ''Volume'' (PStr []))
                  @ u ''},'' @ [newline]
                  @ u ''  pages={'' @ pages @ u ''},'' @ [newline]
                  @ u ''  year={'' @ str_int year @ u ''},'' @ [newline]
                  @ u ''  publisher={''
                  @ sanitize_text env (row_get_default df article ''Publisher'' (PStr []))
                  @ u ''},'' @ [newline]
                  @ u ''  doi={'' @ py_str env (row_get_default df article ''DOI'' (PStr []))
                  @ u ''}'' @ [newline]
                  @ u ''}'')))"

definition entry_for :: "pyenv \<Rightarrow> table \<Rightarrow> pystr list \<Rightarrow> pystr \<Rightarrow> error + pystr" where
  "entry_for env df bib_keys key =
     (case loc bib_keys (rows df) key of
        [] \<Rightarrow> Inl KeyError
      | [article] \<Rightarrow> bib_entry env df key article
      | _ \<Rightarrow> (if ''Page start'' \<in> set (columns df) then Inl ValueError else Inl KeyError))"

text \<open>
  The last loop: \<^verbatim>\<open>except Exception\<close> turns every failure of an entry into a warning, and
  the loop goes on with the next key.
\<close>

fun bib_content_loop :: "pyenv \<Rightarrow> table \<Rightarrow> pystr list \<Rightarrow> pystr list \<Rightarrow> pystr list \<Rightarrow> pystr list" where
  "bib_content_loop env df bib_keys [] final_bib_content = final_bib_content"
| "bib_content_loop env df bib_keys (key # rest) final_bib_content =
     (case entry_for env df bib_keys key of
        Inr entry \<Rightarrow> bib_content_loop env df bib_keys rest (final_bib_content @ [entry])
      | Inl e \<Rightarrow> bib_content_loop env df bib_keys rest final_bib_content)"

section \<open>The analysis\<close>

record analysis =
  bib_keys_of :: "pystr list"
  table_data :: "item list"
  unique_ordered_keys :: "pystr list"
  latex_table_rows :: "pystr list"
  final_bib_content :: "pystr list"
  counts :: article_counts

definition analyze_literature :: "pyenv \<Rightarrow> table \<Rightarrow> error + analysis" where
  "analyze_literature env df =
     (case make_bib_keys env df of
        Inl e \<Rightarrow> Inl e
      | Inr bib_keys \<Rightarrow>
     (case combined_text df of
        Inl e \<Rightarrow> Inl e
      | Inr texts \<Rightarrow>
     (case combinations_loop env (zip texts bib_keys) []
             \<lparr>mono = 0, binary = 0, ternary = 0, other = 0\<rparr> of
        Inl e \<Rightarrow> Inl e
      | Inr (combination_keys, article_counts) \<Rightarrow>
          (let tdata = make_table_data combination_keys;
               all_ordered_cite_keys = concat (map keys tdata);
               ukeys = dict_fromkeys all_ordered_cite_keys
           in Inr \<lparr>bib_keys_of = bib_keys,
                   table_data = tdata,
                   unique_ordered_keys = ukeys,
                   latex_table_rows = map latex_row tdata,
                   final_bib_content = bib_content_loop env df bib_keys ukeys [],
                   counts = article_counts\<rparr>))))"

text \<open>The two files the script writes.\<close>

definition references_bib :: "analysis \<Rightarrow> pystr" where
  "references_bib a = join_str [newline, newline] (final_bib_content a)"

definition latex_table_tex :: "analysis \<Rightarrow> pystr" where
  "latex_table_tex a = join_str [newline] (latex_table_rows a)"

definition output_files :: "analysis \<Rightarrow> pystr \<times> pystr" where
  "output_files a = (latex_table_tex a, references_bib a)"

text \<open>
  The script as a whole: \<open>None\<close> as input is the file that \<^verbatim>\<open>read_csv\<close> does not find, on
  which the script reports and returns without writing anything.
\<close>

definition run_script :: "pyenv \<Rightarrow> table option \<Rightarrow> error + (pystr \<times> pystr) option" where
  "run_script env file =
     (case file of
        None \<Rightarrow> Inr None
      | Some df \<Rightarrow>
          (case analyze_literature env df of
             Inl e \<Rightarrow> Inl e
           | Inr a \<Rightarrow> Inr (Some (output_files a))))"

section \<open>What the specification calls a whole-word match\<close>

text \<open>
  The variant occurs in the text, case ignored, and neither end of the occurrence lies
  inside a larger token: the character before it, if there is one, is no word character,
  and neither is the character after it.
\<close>

definition whole_word_occurrence :: "pyenv \<Rightarrow> pystr \<Rightarrow> pystr \<Rightarrow> bool" where
  "whole_word_occurrence env v text =
     (\<exists>i. i + length v \<le> length text
        \<and> (\<forall>j<length v. ic_match env (v ! j) (text ! (i + j)))
        \<and> (i = 0 \<or> \<not> is_word env (text ! (i - 1)))
        \<and> (i + length v = length text \<or> \<not> is_word env (text ! (i + length v))))"

text \<open>
  A property of the Unicode tables: a code point beyond ASCII that matches an ASCII letter
  or digit when case is ignored (the long s, the dotless i, the Kelvin sign) is itself a
  letter.
\<close>

definition ic_respects_words :: "pyenv \<Rightarrow> bool" where
  "ic_respects_words env =
     (\<forall>p c. is_ascii p \<and> ascii_isalnum p \<and> \<not> is_ascii c \<and> uni_ic_match env p c
        \<longrightarrow> uni_isalnum env c)"

text \<open>A variant that begins and ends with an ASCII letter or digit.\<close>

definition good_variant :: "pystr \<Rightarrow> bool" where
  "good_variant v =
     (v \<noteq> [] \<and> is_ascii (hd v) \<and> ascii_isalnum (hd v) \<and> is_ascii (last v) \<and> ascii_isalnum (last v))"

section \<open>What the specification calls the running tally\<close>


section \<open>Concrete inputs\<close>

text \<open>
  An environment for the examples. Their texts are ASCII, on which the Unicode tables are
  not consulted, and they hold no floats; \<open>seeded_env h\<close> is a process in which \<^verbatim>\<open>hash\<close>
  gives \<open>h\<close>.
\<close>

definition example_env :: pyenv where
  "example_env =
     \<lparr>uni_decomp = (\<lambda>c. []), uni_isalnum = (\<lambda>c. False), uni_ic_match = (\<lambda>p c. False),
      uni_int = (\<lambda>s. None), py_hash = (\<lambda>v. 0), float_repr = (\<lambda>r. [])\<rparr>"

definition seeded_env :: "int \<Rightarrow> pyenv" where
  "seeded_env h = example_env\<lparr>py_hash := (\<lambda>v. h)\<rparr>"

text \<open>A row with authors, year and title; every other cell is missing.\<close>

definition article :: "string \<Rightarrow> pyval \<Rightarrow> string \<Rightarrow> row" where
  "article a y t = (\<lambda>c. PNaN)(''Authors'' := PStr (u a), ''Year'' := y, ''Title'' := PStr (u t))"

definition all_columns :: "string list" where
  "all_columns =
     [''Authors'', ''Title'', ''Year'', ''Source title'', ''Volume'', ''Page start'', ''Page end'',
      ''DOI'', ''Abstract'', ''Keywords'', ''Index Keywords'', ''Publisher'']"



text \<open>
  Two articles with the same base key and a third whose title begins with a word that
  ends in the digit the second one is given.
\<close>

definition suffix_clash :: table where
  "suffix_clash =
     \<lparr>columns = all_columns,
      rows = [article ''J. Smith'' (PInt 2020) ''Graphene films'',
              article ''J. Smith'' (PInt 2020) ''Graphene sheets'',
              article ''J. Smith'' (PInt 2020) ''Graphene2 flakes'']\<rparr>"

text \<open>
  Four groups in the order they were first met: one material, two materials cited ten
  times, three materials cited twice, and one material again.
\<close>

definition example_groups :: "(pystr list \<times> pystr list) list" where
  "example_groups =
     [([u ''Gold''], [u ''k1'']),
      ([u ''Gold'', u ''Silver''], map (\<lambda>i. u ''b'' @ str_nat i) [0..<10]),
      ([u ''Copper'', u ''Gold'', u ''Silver''], [u ''t1'', u ''t2'']),
      ([u ''Silver''], [u ''k2''])]"

text \<open>
  The combined texts and keys of three articles: one on titania, two on silver and gold
  under different names.
\<close>

definition three_articles :: "(pystr \<times> pystr) list" where
  "three_articles =
     [(u ''TiO2'', u ''k1''), (u ''silver gold'', u ''k2''), (u ''Au Ag'', u ''k3'')]"

text \<open>An article on gold whose year is missing, in a table with every column.\<close>

definition undated :: table where
  "undated = \<lparr>columns = all_columns, rows = [article ''J. Smith'' PNaN ''Gold'']\<rparr>"

text \<open>An article on gold whose year is a text that is no number.\<close>

definition year_in_words :: table where
  "year_in_words =
     \<lparr>columns = all_columns, rows = [article ''J. Smith'' (PStr (u ''n.d.'')) ''Gold'']\<rparr>"

text \<open>A table that has no keyword columns.\<close>

definition no_keywords :: table where
  "no_keywords =
     \<lparr>columns = [''Authors'', ''Title'', ''Year'', ''Abstract''],
      rows = [article ''J. Smith'' (PInt 2020) ''Gold'']\<rparr>"

section \<open>Evaluation at concrete inputs\<close>

lemmas ascii_defs = is_ascii_def is_digit_def is_upper_def is_lower_def ascii_isalnum_def
  ascii_lower_def ascii_isspace_def

lemmas key_eval = generate_bib_key_def key_body_def clean_author_def clean_title_def
  year_str_def fallback_key_def sanitize_text_def normalize_NFKD_def encode_ascii_ignore_def
  replacements_def replace_char_def index_first_def index_last_def lower_str_def keep_alnum_def
  str_int_def str_nat.simps int_of_str_def ascii_int_def strip_ws_def int_isspace_def trunc_def
  ascii_defs u_def cp_def bslash_def example_env_def Let_def

lemmas table_eval = make_bib_keys_def base_key_of_def row_get_def article_def all_columns_def

section \<open>The sanitizer yields ASCII\<close>

lemma replace_char_ascii:
  "list_all is_ascii r \<Longrightarrow> list_all is_ascii s \<Longrightarrow> list_all is_ascii (replace_char c r s)"
  by (induction s) (auto simp: replace_char_def)

lemma replacements_ascii: "list_all (\<lambda>p. list_all is_ascii (snd p)) replacements"
  by (simp add: replacements_def is_ascii_def bslash_def cp_def)

lemma foldl_replace_ascii:
  "list_all (\<lambda>p. list_all is_ascii (snd p)) rs \<Longrightarrow> list_all is_ascii t \<Longrightarrow>
   list_all is_ascii (foldl (\<lambda>t (c, escaped). replace_char c escaped t) t rs)"
  by (induction rs arbitrary: t) (simp_all add: replace_char_ascii case_prod_beta)

lemma sanitize_text_all_ascii: "list_all is_ascii (sanitize_text env v)"
proof (cases v)
  case (PStr s)
  have "list_all is_ascii (encode_ascii_ignore (normalize_NFKD env s))"
    by (simp add: encode_ascii_ignore_def list_all_iff)
  then show ?thesis
    using PStr by (simp add: sanitize_text_def foldl_replace_ascii [OF replacements_ascii])
qed (simp_all add: sanitize_text_def)

text \<open>
  C10. Whatever the input value, \<open>sanitize_text\<close> returns a text of ASCII characters only:
  a value that is no string gives the empty text, what normalisation leaves outside ASCII
  is dropped by the encoding step, and the replacements add only backslashes.
\<close>

theorem sanitize_text_ascii:
  "list_all is_ascii (sanitize_text env v)
   \<and> sanitize_text env PNone = [] \<and> sanitize_text env PNaN = []
   \<and> sanitize_text env (PInt i) = [] \<and> sanitize_text env (PFloat r) = []"
  by (simp add: sanitize_text_all_ascii) (simp add: sanitize_text_def)

theorem sanitize_text_ascii_witness:
  "list_all is_ascii (sanitize_text example_env (PStr (u ''A & B_C'')))
   \<and> sanitize_text example_env (PStr (u ''A & B_C''))
       = u ''A '' @ [bslash] @ u ''& B'' @ [bslash] @ u ''_C''"
  using sanitize_text_ascii [of example_env "PStr (u ''A & B_C'')"]
  by (simp add: sanitize_text_def example_env_def u_def cp_def replacements_def replace_char_def
      encode_ascii_ignore_def normalize_NFKD_def is_ascii_def bslash_def)

section \<open>The key generator always returns\<close>








section \<open>The uniqueness pass\<close>




text \<open>
  C3. The keys after the uniqueness pass are meant to be pairwise distinct. They are not:
  the key the pass builds for a second occurrence, \<open>X2\<close>, can be the base key of another
  article, whose first occurrence the pass leaves as it is.
\<close>

theorem duplicate_key_after_uniqueness_pass:
  "make_bib_keys example_env suffix_clash
     = Inr [u ''smith2020graphene'', u ''smith2020graphene2'', u ''smith2020graphene2'']
   \<and> \<not> distinct [u ''smith2020graphene'', u ''smith2020graphene2'', u ''smith2020graphene2'']"
  by (simp add: suffix_clash_def table_eval key_eval)

section \<open>The year in the key\<close>






section \<open>The order of the groups\<close>

lemma sorted_reverse_descending:
  "i < j \<Longrightarrow> j < length xs \<Longrightarrow> f (sorted_reverse f xs ! j) \<le> f (sorted_reverse f xs ! i)"
proof -
  assume ij: "i < j" and j: "j < length xs"
  let ?s = "sort_key f (rev xs)"
  have len: "length ?s = length xs" by simp
  have srt: "sorted (map f ?s)" by (rule sorted_sort_key)
  have "f (rev ?s ! j) = map f ?s ! (length xs - Suc j)"
    using j len by (simp add: rev_nth)
  moreover have "f (rev ?s ! i) = map f ?s ! (length xs - Suc i)"
    using ij j len by (simp add: rev_nth)
  moreover have "map f ?s ! (length xs - Suc j) \<le> map f ?s ! (length xs - Suc i)"
    using ij j len by (intro sorted_nth_mono [OF srt]) auto
  ultimately show ?thesis by (simp add: sorted_reverse_def)
qed

lemma sorted_reverse_stable:
  "filter (\<lambda>x. f x = k) (sorted_reverse f xs) = filter (\<lambda>x. f x = k) xs"
proof -
  have "filter (\<lambda>x. f x = k) (sorted_reverse f xs)
      = rev (filter (\<lambda>x. f x = k) (sort_key f (rev xs)))"
    by (simp add: sorted_reverse_def rev_filter)
  also have "\<dots> = rev (filter (\<lambda>x. f x = k) (rev xs))"
    by (simp only: sort_key_stable)
  also have "\<dots> = filter (\<lambda>x. f x = k) xs"
    by (simp add: rev_filter)
  finally show ?thesis .
qed

lemma mset_sorted_reverse: "mset (sorted_reverse f xs) = mset xs"
  by (simp add: sorted_reverse_def)

lemma dict_append_keys:
  "map fst (dict_append d k v) = (if k \<in> set (map fst d) then map fst d else map fst d @ [k])"
  by (induction d k v rule: dict_append.induct) auto

text \<open>
  C7. The groups are put out by size, larger combinations first, and within a size by
  frequency, more frequent first; the sort is stable, so groups equal on both keep the
  order in which the dictionary holds them, which is the order in which their
  combinations were first met (a new combination goes to the end of the dictionary, a
  known one stays where it is).
\<close>

theorem table_data_order:
  "(\<forall>i j. i < j \<and> j < length (make_table_data ck) \<longrightarrow>
      length (combo (make_table_data ck ! j)) < length (combo (make_table_data ck ! i))
      \<or> (length (combo (make_table_data ck ! j)) = length (combo (make_table_data ck ! i))
          \<and> freq (make_table_data ck ! j) \<le> freq (make_table_data ck ! i)))
   \<and> (\<forall>n m. filter (\<lambda>x. length (combo x) = n \<and> freq x = m) (make_table_data ck)
         = filter (\<lambda>x. length (combo x) = n \<and> freq x = m) (map make_item ck))
   \<and> mset (make_table_data ck) = mset (map make_item ck)
   \<and> map fst (dict_append ck c key)
       = (if c \<in> set (map fst ck) then map fst ck else map fst ck @ [c])"
proof (intro conjI allI impI)
  fix i j assume "i < j \<and> j < length (make_table_data ck)"
  then have "sort_key_of (make_table_data ck ! j) \<le> sort_key_of (make_table_data ck ! i)"
    unfolding make_table_data_def
    by (intro sorted_reverse_descending) (auto simp: sorted_reverse_def)
  then show "length (combo (make_table_data ck ! j)) < length (combo (make_table_data ck ! i))
      \<or> (length (combo (make_table_data ck ! j)) = length (combo (make_table_data ck ! i))
          \<and> freq (make_table_data ck ! j) \<le> freq (make_table_data ck ! i))"
    by (auto simp: sort_key_of_def less_eq_prod_def)
next
  fix n m
  have "(\<lambda>x. length (combo x) = n \<and> freq x = m) = (\<lambda>x. sort_key_of x = (n, m))"
    by (auto simp: sort_key_of_def)
  then show "filter (\<lambda>x. length (combo x) = n \<and> freq x = m) (make_table_data ck)
         = filter (\<lambda>x. length (combo x) = n \<and> freq x = m) (map make_item ck)"
    by (simp add: make_table_data_def sorted_reverse_stable)
next
  show "mset (make_table_data ck) = mset (map make_item ck)"
    by (simp add: make_table_data_def mset_sorted_reverse)
next
  show "map fst (dict_append ck c key)
       = (if c \<in> set (map fst ck) then map fst ck else map fst ck @ [c])"
    by (rule dict_append_keys)
qed

text \<open>
  Three materials cited twice come before two materials cited ten times, and the two
  single materials, equal on both keys, stay in the order they were met.
\<close>

theorem table_data_order_witness:
  "map (\<lambda>x. (combo x, freq x)) (make_table_data example_groups)
     = [([u ''Copper'', u ''Gold'', u ''Silver''], 2), ([u ''Gold'', u ''Silver''], 10),
        ([u ''Gold''], 1), ([u ''Silver''], 1)]
   \<and> filter (\<lambda>x. length (combo x) = 1 \<and> freq x = 1) (make_table_data example_groups)
     = filter (\<lambda>x. length (combo x) = 1 \<and> freq x = 1) (map make_item example_groups)"
proof -
  have order: "map (\<lambda>x. (combo x, freq x)) (make_table_data example_groups)
     = [([u ''Copper'', u ''Gold'', u ''Silver''], 2), ([u ''Gold'', u ''Silver''], 10),
        ([u ''Gold''], 1), ([u ''Silver''], 1)]"
    by (simp add: make_table_data_def sorted_reverse_def make_item_def sort_key_of_def
        example_groups_def less_eq_prod_def)
  have stable: "filter (\<lambda>x. length (combo x) = 1 \<and> freq x = 1) (make_table_data example_groups)
     = filter (\<lambda>x. length (combo x) = 1 \<and> freq x = 1) (map make_item example_groups)"
    using table_data_order [of example_groups] by blast
  from order stable show ?thesis by (rule conjI)
qed

section \<open>The detector's patterns\<close>

lemma special_not_alnum:
  "c \<in> set special_chars \<Longrightarrow> c \<noteq> cp CHR ''b'' \<and> \<not> (is_ascii c \<and> ascii_isalnum c)"
  by (auto simp: special_chars_def u_def cp_def bslash_def ascii_isalnum_def is_digit_def
      is_upper_def is_lower_def)

lemma plain_not_meta: "c \<notin> set special_chars \<Longrightarrow> c \<noteq> bslash \<and> c \<notin> set metachars"
  by (auto simp: special_chars_def metachars_def u_def cp_def bslash_def)

lemma re_parse_plain:
  "c \<noteq> bslash \<Longrightarrow> c \<notin> set metachars \<Longrightarrow>
   re_parse (c # rest) = map_option ((#) (Lit c)) (re_parse rest)"
  by (cases rest) auto

lemma re_parse_escaped:
  "c \<noteq> cp CHR ''b'' \<Longrightarrow> \<not> (is_ascii c \<and> ascii_isalnum c) \<Longrightarrow>
   re_parse (bslash # c # rest) = map_option ((#) (Lit c)) (re_parse rest)"
  by auto

lemma re_parse_boundary:
  "re_parse (bslash # cp CHR ''b'' # rest) = map_option ((#) WordBoundary) (re_parse rest)"
  by simp

lemma re_parse_escape:
  "re_parse (re_escape v @ rest) = map_option ((@) (map Lit v)) (re_parse rest)"
proof (induction v)
  case Nil
  then show ?case by (simp add: re_escape_def option.map_ident)
next
  case (Cons c v)
  have step: "re_parse (re_escape (c # v) @ rest)
      = map_option ((#) (Lit c)) (re_parse (re_escape v @ rest))"
  proof (cases "c \<in> set special_chars")
    case True
    with special_not_alnum [OF True] show ?thesis
      using re_parse_escaped [of c "re_escape v @ rest"] by (simp add: re_escape_def)
  next
    case False
    with plain_not_meta [OF False] show ?thesis
      using re_parse_plain [of c "re_escape v @ rest"] by (simp add: re_escape_def)
  qed
  show ?case unfolding step Cons.IH by (simp add: option.map_comp comp_def)
qed

lemma re_parse_pattern:
  "re_parse ([bslash, cp CHR ''b''] @ re_escape v @ [bslash, cp CHR ''b''])
     = Some (WordBoundary # map Lit v @ [WordBoundary])"
proof -
  have "re_parse [bslash, cp CHR ''b''] = Some [WordBoundary]"
    by simp
  then have "re_parse (re_escape v @ [bslash, cp CHR ''b'']) = Some (map Lit v @ [WordBoundary])"
    by (simp only: re_parse_escape option.map)
  then show ?thesis
    using re_parse_boundary [of "re_escape v @ [bslash, cp CHR ''b'']"] by simp
qed

lemma match_here_literals:
  "match_here env (map Lit v @ rest) text i
     = ((\<forall>j<length v. i + j < length text \<and> ic_match env (v ! j) (text ! (i + j)))
        \<and> match_here env rest text (i + length v))"
proof (induction v arbitrary: i)
  case Nil
  then show ?case by simp
next
  case (Cons c v)
  have "(\<forall>j<Suc (length v). i + j < length text \<and> ic_match env ((c # v) ! j) (text ! (i + j)))
      = (i < length text \<and> ic_match env c (text ! i)
         \<and> (\<forall>j<length v. Suc i + j < length text \<and> ic_match env (v ! j) (text ! (Suc i + j))))"
    by (auto simp: less_Suc_eq_0_disj)
  with Cons.IH [of "Suc i"] show ?case by auto
qed

lemma literals_in_range:
  "i \<le> length text \<Longrightarrow>
   (\<forall>j<length v. i + j < length text \<and> P j) = (i + length v \<le> length text \<and> (\<forall>j<length v. P j))"
proof (cases v)
  case Nil
  assume "i \<le> length text"
  with Nil show ?thesis by simp
next
  case (Cons c w)
  have "i + length w < length text" if "\<forall>j<length v. i + j < length text \<and> P j"
    using that Cons by auto
  then show ?thesis using Cons by auto
qed

text \<open>The match of one pattern at one position.\<close>

lemma match_here_pattern:
  "i \<le> length text \<Longrightarrow>
   match_here env (WordBoundary # map Lit v @ [WordBoundary]) text i
     = (at_boundary env text i \<and> i + length v \<le> length text
        \<and> (\<forall>j<length v. ic_match env (v ! j) (text ! (i + j)))
        \<and> at_boundary env text (i + length v))"
  by (simp add: match_here_literals literals_in_range)

lemma ic_match_word:
  assumes "ic_respects_words env" and "is_ascii p" and "ascii_isalnum p" and "ic_match env p c"
  shows "is_word env c"
proof (cases "is_ascii c")
  case True
  with assms(2,4) have "ascii_lower p = ascii_lower c" by (simp add: ic_match_def)
  with assms(3) have "ascii_isalnum c"
    by (auto simp: ascii_lower_def ascii_isalnum_def is_digit_def is_upper_def is_lower_def
        split: if_splits)
  with True show ?thesis by (simp add: is_word_def)
next
  case False
  with assms(2,4) have "uni_ic_match env p c" by (simp add: ic_match_def)
  with assms(1,2,3) False have "uni_isalnum env c" by (auto simp: ic_respects_words_def)
  with False show ?thesis by (simp add: is_word_def)
qed


text \<open>
  A variant that begins and ends with an ASCII letter or digit, as all variants of the
  configuration do: before and after a match of it, the assertion \<^verbatim>\<open>\b\<close> says that
  the neighbouring character is no word character.
\<close>

lemma boundary_before:
  assumes "i < length text" and "is_word env (text ! i)"
  shows "at_boundary env text i = (i = 0 \<or> \<not> is_word env (text ! (i - 1)))"
  using assms by (auto simp: at_boundary_def)

lemma boundary_after:
  assumes "0 < n" and "n \<le> length text" and "is_word env (text ! (n - 1))"
  shows "at_boundary env text n = (n = length text \<or> \<not> is_word env (text ! n))"
  using assms by (auto simp: at_boundary_def)

lemma pattern_is_whole_word:
  assumes env: "ic_respects_words env" and v: "good_variant v" and i: "i \<le> length text"
  shows "match_here env (WordBoundary # map Lit v @ [WordBoundary]) text i
     = (i + length v \<le> length text
        \<and> (\<forall>j<length v. ic_match env (v ! j) (text ! (i + j)))
        \<and> (i = 0 \<or> \<not> is_word env (text ! (i - 1)))
        \<and> (i + length v = length text \<or> \<not> is_word env (text ! (i + length v))))"
proof (cases "i + length v \<le> length text \<and> (\<forall>j<length v. ic_match env (v ! j) (text ! (i + j)))")
  case False
  then show ?thesis unfolding match_here_pattern [OF i] by blast
next
  case True
  from v have ne: "0 < length v" and first: "is_ascii (v ! 0)" "ascii_isalnum (v ! 0)"
    and last: "is_ascii (v ! (length v - 1))" "ascii_isalnum (v ! (length v - 1))"
    by (auto simp: good_variant_def hd_conv_nth last_conv_nth)
  from True ne have "ic_match env (v ! 0) (text ! i)" by force
  with env first have w1: "is_word env (text ! i)" by (auto intro: ic_match_word)
  from True ne have "ic_match env (v ! (length v - 1)) (text ! (i + (length v - 1)))" by simp
  with env last have "is_word env (text ! (i + (length v - 1)))" by (auto intro: ic_match_word)
  moreover from ne have "i + (length v - 1) = i + length v - 1" by arith
  ultimately have w2: "is_word env (text ! (i + length v - 1))" by simp
  from True ne have lt: "i < length text" by (cases v) auto
  have b1: "at_boundary env text i = (i = 0 \<or> \<not> is_word env (text ! (i - 1)))"
    using lt w1 by (rule boundary_before)
  have b2: "at_boundary env text (i + length v)
      = (i + length v = length text \<or> \<not> is_word env (text ! (i + length v)))"
    using ne True w2 by (intro boundary_after) auto
  show ?thesis unfolding match_here_pattern [OF i] b1 b2 using True by blast
qed

lemma list_ex_upto: "list_ex P [0..<Suc n] = (\<exists>i\<le>n. P i)"
  by (auto simp: list_ex_iff less_Suc_eq_le simp del: upt_Suc)

lemma re_search_pattern:
  assumes "ic_respects_words env" and "good_variant v"
  shows "re_search env ([bslash, cp CHR ''b''] @ re_escape v @ [bslash, cp CHR ''b'']) text
     = Inr (whole_word_occurrence env v text)"
proof -
  let ?items = "WordBoundary # map Lit v @ [WordBoundary]"
  have "list_ex (match_here env ?items text) [0..<Suc (length text)]
      = (\<exists>i\<le>length text. match_here env ?items text i)"
    by (rule list_ex_upto)
  also have "\<dots> = whole_word_occurrence env v text"
  proof
    assume "\<exists>i\<le>length text. match_here env ?items text i"
    then obtain i where "i \<le> length text" and "match_here env ?items text i" by blast
    with pattern_is_whole_word [OF assms, of i "text"] show "whole_word_occurrence env v text"
      unfolding whole_word_occurrence_def by blast
  next
    assume "whole_word_occurrence env v text"
    then obtain i where occ: "i + length v \<le> length text"
      "\<forall>j<length v. ic_match env (v ! j) (text ! (i + j))"
      "i = 0 \<or> \<not> is_word env (text ! (i - 1))"
      "i + length v = length text \<or> \<not> is_word env (text ! (i + length v))"
      unfolding whole_word_occurrence_def by blast
    then have i: "i \<le> length text" by simp
    from occ have "match_here env ?items text i"
      unfolding pattern_is_whole_word [OF assms i] by blast
    with i show "\<exists>i\<le>length text. match_here env ?items text i" by blast
  qed
  finally have "list_ex (match_here env ?items text) [0..<Suc (length text)]
      = whole_word_occurrence env v text" .
  then show ?thesis by (simp only: re_search_def re_parse_pattern option.case)
qed

lemma any_variation_whole_word:
  assumes "ic_respects_words env" and "list_all good_variant vs"
  shows "any_variation env text vs = Inr (\<exists>v\<in>set vs. whole_word_occurrence env v text)"
  using assms(2)
proof (induction vs)
  case Nil
  then show ?case by simp
next
  case (Cons v vs)
  then have "good_variant v" and "list_all good_variant vs" by simp_all
  with Cons.IH re_search_pattern [OF assms(1) \<open>good_variant v\<close>, of "text"] show ?case
    by (cases "whole_word_occurrence env v text") simp_all
qed

lemma find_nanoparticles_whole_word:
  assumes "ic_respects_words env" and "list_all (\<lambda>nv. list_all good_variant (snd nv)) cat"
  shows "\<exists>found. find_nanoparticles env text cat acc = Inr found
     \<and> set found = set acc \<union>
         {name. \<exists>variations. (name, variations) \<in> set cat
            \<and> (\<exists>v\<in>set variations. whole_word_occurrence env v text)}"
  using assms(2)
proof (induction cat arbitrary: acc)
  case Nil
  then show ?case by simp
next
  case (Cons nv cat)
  obtain name variations where nv: "nv = (name, variations)" by (cases nv)
  from Cons.prems nv have good: "list_all good_variant variations"
    and rest: "list_all (\<lambda>nv. list_all good_variant (snd nv)) cat" by simp_all
  note any = any_variation_whole_word [OF assms(1) good, of "text"]
  show ?case
  proof (cases "\<exists>v\<in>set variations. whole_word_occurrence env v text")
    case True
    from Cons.IH [OF rest, of "set_add name acc"] obtain found
      where "find_nanoparticles env text cat (set_add name acc) = Inr found"
        and "set found = set (set_add name acc) \<union>
         {name. \<exists>variations. (name, variations) \<in> set cat
            \<and> (\<exists>v\<in>set variations. whole_word_occurrence env v text)}"
      by blast
    with True any nv show ?thesis by (auto simp: set_add_def)
  next
    case False
    from Cons.IH [OF rest, of acc] obtain found
      where "find_nanoparticles env text cat acc = Inr found"
        and "set found = set acc \<union>
         {name. \<exists>variations. (name, variations) \<in> set cat
            \<and> (\<exists>v\<in>set variations. whole_word_occurrence env v text)}"
      by blast
    with False any nv show ?thesis by auto
  qed
qed

lemma catalog_variants_good: "list_all (\<lambda>nv. list_all good_variant (snd nv)) NANOPARTICLE_MAP"
  by (simp add: NANOPARTICLE_MAP_def good_variant_def u_def cp_def is_ascii_def
      ascii_isalnum_def is_digit_def is_upper_def is_lower_def)

lemma set_set_add [simp]: "set (set_add x s) = insert x (set s)"
  by (auto simp: set_add_def)

lemma distinct_set_add [simp]: "distinct (set_add x s) = distinct s"
  by (auto simp: set_add_def)

lemma find_nanoparticles_distinct:
  "find_nanoparticles env t cat acc = Inr f \<Longrightarrow> distinct acc \<Longrightarrow> distinct f"
  by (induction env t cat acc rule: find_nanoparticles.induct)
     (auto split: sum.splits bool.splits)

lemma nanoparticles_of_distinct: "nanoparticles_of env t = Inr f \<Longrightarrow> distinct f"
  by (auto simp: nanoparticles_of_def dest: find_nanoparticles_distinct)


text \<open>Evaluating a search at a given text: each position in turn, each item in turn.\<close>

lemma match_here_Lit_if:
  "match_here env (Lit p # ps) text i =
     (if i < length text
      then (if ic_match env p (text ! i) then match_here env ps text (Suc i) else False)
      else False)"
  by simp

lemma match_here_WordBoundary_if:
  "match_here env (WordBoundary # ps) text i =
     (if at_boundary env text i then match_here env ps text i else False)"
  by simp

lemma list_ex_if: "list_ex P (x # xs) = (if P x then True else list_ex P xs)"
  by simp

lemma re_search_variant:
  "re_search env ([bslash, cp CHR ''b''] @ re_escape v @ [bslash, cp CHR ''b'']) text
     = Inr (list_ex (match_here env (WordBoundary # map Lit v @ [WordBoundary]) text)
              [0..<Suc (length text)])"
  by (simp only: re_search_def re_parse_pattern option.case)

lemmas search_eval = match_here_Lit_if match_here_WordBoundary_if
  list_ex_if at_boundary_def is_word_def ic_match_def ascii_defs
  example_env_def u_def cp_def Let_def

text \<open>
  C2. Given that the Unicode tables keep case-insensitive matches of ASCII letters
  within the letters, the detector returns for every text, and a canonical name is in
  the detected set if and only if one of its variants occurs in the text as a
  case-insensitive whole word.
\<close>

theorem detection_whole_word:
  assumes "ic_respects_words env"
  shows "\<exists>found. nanoparticles_of env text = Inr found \<and> distinct found
     \<and> (\<forall>name. name \<in> set found \<longleftrightarrow>
           (\<exists>variations. (name, variations) \<in> set NANOPARTICLE_MAP
              \<and> (\<exists>v\<in>set variations. whole_word_occurrence env v text)))"
proof -
  from find_nanoparticles_whole_word [OF assms catalog_variants_good, of "text" "[]"]
  obtain found where found: "nanoparticles_of env text = Inr found"
    and set: "set found = {name. \<exists>variations. (name, variations) \<in> set NANOPARTICLE_MAP
            \<and> (\<exists>v\<in>set variations. whole_word_occurrence env v text)}"
    by (auto simp: nanoparticles_of_def)
  from found have "distinct found" by (rule nanoparticles_of_distinct)
  with found set show ?thesis by auto
qed

text \<open>
  The text \<open>Author of gold nanoparticles\<close> has Gold in its set, by the word \<open>gold\<close>; the
  text \<open>Authors\<close> has not, the variant \<open>Au\<close> being no whole word of it.
\<close>

theorem detection_whole_word_witness:
  "ic_respects_words example_env
   \<and> (\<exists>found. nanoparticles_of example_env (u ''Author of gold nanoparticles'') = Inr found
        \<and> u ''Gold'' \<in> set found)
   \<and> (\<exists>found. nanoparticles_of example_env (u ''Authors'') = Inr found
        \<and> u ''Gold'' \<notin> set found)
   \<and> \<not> whole_word_occurrence example_env (u ''Au'') (u ''Authors'')"
proof -
  have env: "ic_respects_words example_env"
    by (simp add: ic_respects_words_def example_env_def)
  have good: "good_variant (u ''gold'')" "good_variant (u ''Au'')"
    by (simp_all add: good_variant_def u_def cp_def ascii_defs)
  have gold: "\<And>variations. (u ''Gold'', variations) \<in> set NANOPARTICLE_MAP
      \<longleftrightarrow> variations = [u ''gold'', u ''Au'']"
    by (simp add: NANOPARTICLE_MAP_def u_def cp_def) 
  have yes: "whole_word_occurrence example_env (u ''gold'') (u ''Author of gold nanoparticles'')"
  proof -
    have "re_search example_env ([bslash, cp CHR ''b''] @ re_escape (u ''gold'') @ [bslash, cp CHR ''b''])
            (u ''Author of gold nanoparticles'') = Inr True"
      unfolding re_search_variant
      by (simp add: search_eval del: match_here.simps(2,3) list_ex_Cons_iff)
    with re_search_pattern [OF env good(1), of "u ''Author of gold nanoparticles''"]
    show ?thesis by simp
  qed
  have no_gold: "\<not> whole_word_occurrence example_env (u ''gold'') (u ''Authors'')"
  proof -
    have "re_search example_env ([bslash, cp CHR ''b''] @ re_escape (u ''gold'') @ [bslash, cp CHR ''b''])
            (u ''Authors'') = Inr False"
      unfolding re_search_variant
      by (simp add: search_eval del: match_here.simps(2,3) list_ex_Cons_iff)
    with re_search_pattern [OF env good(1), of "u ''Authors''"] show ?thesis by simp
  qed
  have no_au: "\<not> whole_word_occurrence example_env (u ''Au'') (u ''Authors'')"
  proof -
    have "re_search example_env ([bslash, cp CHR ''b''] @ re_escape (u ''Au'') @ [bslash, cp CHR ''b''])
            (u ''Authors'') = Inr False"
      unfolding re_search_variant
      by (simp add: search_eval del: match_here.simps(2,3) list_ex_Cons_iff)
    with re_search_pattern [OF env good(2), of "u ''Authors''"] show ?thesis by simp
  qed
  from detection_whole_word [OF env, of "u ''Author of gold nanoparticles''"] gold yes
  have first: "\<exists>found. nanoparticles_of example_env (u ''Author of gold nanoparticles'') = Inr found
        \<and> u ''Gold'' \<in> set found"
    by auto
  from detection_whole_word [OF env, of "u ''Authors''"] gold no_gold no_au
  have second: "\<exists>found. nanoparticles_of example_env (u ''Authors'') = Inr found
        \<and> u ''Gold'' \<notin> set found"
    by auto
  from env first second no_au show ?thesis by blast
qed

section \<open>Evaluating the detector\<close>

lemma any_variation_search:
  "any_variation env text vs
     = Inr (list_ex (\<lambda>v. list_ex (match_here env (WordBoundary # map Lit v @ [WordBoundary]) text)
              [0..<Suc (length text)]) vs)"
proof (induction vs)
  case Nil
  then show ?case by simp
next
  case (Cons v vs)
  then show ?case
    by (simp only: any_variation.simps re_search_variant list_ex_Cons_iff sum.case
        bool.case split: bool.split) auto
qed

lemmas detect_eval = nanoparticles_of_def NANOPARTICLE_MAP_def any_variation_search set_add_def
  search_eval

lemmas detect_del = match_here.simps(2,3) list_ex_Cons_iff any_variation.simps

section \<open>Grouping by combination\<close>

lemma combo_key_set:
  assumes "distinct f" and "distinct g" and "set f = set g"
  shows "combo_key f = combo_key g"
proof -
  from assms have "mset g = mset f" by (simp add: set_eq_iff_mset_eq_distinct)
  then have "mset (sort g) = mset f" by simp
  then have "sort f = sort g" by (rule properties_for_sort) simp
  then show ?thesis by (simp add: combo_key_def)
qed

lemma dict_append_new: "\<exists>ks. (k, ks) \<in> set (dict_append d k v) \<and> v \<in> set ks"
  by (induction d k v rule: dict_append.induct) auto

lemma dict_append_old:
  "(k', ks) \<in> set d \<Longrightarrow> \<exists>ks'. (k', ks') \<in> set (dict_append d k v) \<and> set ks \<subseteq> set ks'"
  by (induction d k v rule: dict_append.induct) auto

lemma dict_append_distinct:
  "distinct (map fst d) \<Longrightarrow> distinct (map fst (dict_append d k v))"
  by (simp add: dict_append_keys)

lemma combinations_loop_old:
  "combinations_loop env arts g c = Inr (g', c') \<Longrightarrow> (k, ks) \<in> set g \<Longrightarrow>
   \<exists>ks'. (k, ks') \<in> set g' \<and> set ks \<subseteq> set ks'"
proof (induction env arts g c arbitrary: ks rule: combinations_loop.induct)
  case (1 env g c)
  then show ?case by auto
next
  case (2 env t b rest g c)
  from "2.prems" obtain f where f: "nanoparticles_of env t = Inr f"
    by (auto split: sum.splits)
  show ?case
  proof (cases "length f > 0")
    case True
    with "2.prems" f
    have run: "combinations_loop env rest (dict_append g (combo_key f) b)
                 (count_article (length f) c) = Inr (g', c')"
      by simp
    from dict_append_old [OF "2.prems"(2)] obtain ks1
      where ks1: "(k, ks1) \<in> set (dict_append g (combo_key f) b)" and sub: "set ks \<subseteq> set ks1"
      by blast
    from "2.IH"(1) [OF f refl _ run ks1] True obtain ks'
      where "(k, ks') \<in> set g'" "set ks1 \<subseteq> set ks'" by auto
    with sub show ?thesis by blast
  next
    case False
    with "2.prems" f have run: "combinations_loop env rest g c = Inr (g', c')" by simp
    from "2.IH"(2) [OF f refl _ run "2.prems"(2)] False show ?thesis by auto
  qed
qed

lemma combinations_loop_new:
  "combinations_loop env arts g c = Inr (g', c') \<Longrightarrow> (t, k) \<in> set arts \<Longrightarrow>
   nanoparticles_of env t = Inr f \<Longrightarrow> f \<noteq> [] \<Longrightarrow>
   \<exists>ks. (combo_key f, ks) \<in> set g' \<and> k \<in> set ks"
proof (induction env arts g c rule: combinations_loop.induct)
  case (1 env g c)
  then show ?case by simp
next
  case (2 env t' b rest g c)
  from "2.prems" obtain f' where f': "nanoparticles_of env t' = Inr f'"
    by (auto split: sum.splits)
  show ?case
  proof (cases "length f' > 0")
    case True
    with "2.prems" f'
    have run: "combinations_loop env rest (dict_append g (combo_key f') b)
                 (count_article (length f') c) = Inr (g', c')"
      by simp
    show ?thesis
    proof (cases "(t, k) \<in> set rest")
      case True
      from "2.IH"(1) [OF f' refl _ run True "2.prems"(3,4)] \<open>length f' > 0\<close>
      show ?thesis by auto
    next
      case False
      with "2.prems" have eq: "t' = t" "b = k" by auto
      with f' "2.prems" have "f' = f" by simp
      with dict_append_new [of "combo_key f" g k] eq obtain ks1
        where ks1: "(combo_key f, ks1) \<in> set (dict_append g (combo_key f') b)" and k: "k \<in> set ks1"
        by auto
      from combinations_loop_old [OF run ks1] k show ?thesis by blast
    qed
  next
    case False
    with "2.prems" f' have run: "combinations_loop env rest g c = Inr (g', c')" by simp
    have "(t, k) \<in> set rest"
    proof (rule ccontr)
      assume "(t, k) \<notin> set rest"
      with "2.prems" have "t' = t" by auto
      with f' "2.prems" False show False by simp
    qed
    from "2.IH"(2) [OF f' refl _ run this "2.prems"(3,4)] False show ?thesis by auto
  qed
qed

lemma combinations_loop_distinct:
  "combinations_loop env arts g c = Inr (g', c') \<Longrightarrow> distinct (map fst g) \<Longrightarrow>
   distinct (map fst g')"
proof (induction env arts g c rule: combinations_loop.induct)
  case (1 env g c)
  then show ?case by simp
next
  case (2 env t b rest g c)
  from "2.prems" obtain f where f: "nanoparticles_of env t = Inr f"
    by (auto split: sum.splits)
  show ?case
  proof (cases "length f > 0")
    case True
    with "2.prems" f
    have run: "combinations_loop env rest (dict_append g (combo_key f) b)
                 (count_article (length f) c) = Inr (g', c')"
      by simp
    from "2.IH"(1) [OF f refl _ run] True dict_append_distinct [OF "2.prems"(2)]
    show ?thesis by auto
  next
    case False
    with "2.prems" f have run: "combinations_loop env rest g c = Inr (g', c')" by simp
    from "2.IH"(2) [OF f refl _ run "2.prems"(2)] False show ?thesis by auto
  qed
qed

text \<open>
  C6. Two articles whose detected sets are equal are filed under the same combination,
  in the one group the dictionary has for it; and the combination under which a set is
  filed does not depend on the order in which its members are listed.
\<close>

theorem same_set_same_group:
  assumes "combinations_loop env arts [] c0 = Inr (groups, cnt)"
    and "(t1, k1) \<in> set arts" and "(t2, k2) \<in> set arts"
    and "nanoparticles_of env t1 = Inr f1" and "nanoparticles_of env t2 = Inr f2"
    and "set f1 = set f2" and "f1 \<noteq> []"
  shows "(\<exists>ks. (combo_key f1, ks) \<in> set groups \<and> k1 \<in> set ks \<and> k2 \<in> set ks
           \<and> (\<forall>ks'. (combo_key f1, ks') \<in> set groups \<longrightarrow> ks' = ks))
       \<and> (\<forall>f. distinct f \<and> set f = set f1 \<longrightarrow> combo_key f = combo_key f1)"
proof
  have d1: "distinct f1" and d2: "distinct f2"
    using assms(4,5) by (auto dest: nanoparticles_of_distinct)
  from assms(6,7) have ne2: "f2 \<noteq> []" by auto
  have same: "combo_key f2 = combo_key f1"
    using d1 d2 assms(6) by (intro combo_key_set) auto
  have dist: "distinct (map fst groups)"
    using combinations_loop_distinct [OF assms(1)] by simp
  from combinations_loop_new [OF assms(1,2,4,7)] obtain ks
    where ks: "(combo_key f1, ks) \<in> set groups" and k1: "k1 \<in> set ks" by blast
  from combinations_loop_new [OF assms(1,3,5) ne2] same obtain ks2
    where ks2: "(combo_key f1, ks2) \<in> set groups" and k2: "k2 \<in> set ks2" by auto
  have uniq: "ks' = ks" if "(combo_key f1, ks') \<in> set groups" for ks'
    using dist ks that by (meson eq_key_imp_eq_value)
  from uniq [OF ks2] k2 have "k2 \<in> set ks" by simp
  with ks k1 uniq
  show "\<exists>ks. (combo_key f1, ks) \<in> set groups \<and> k1 \<in> set ks \<and> k2 \<in> set ks
           \<and> (\<forall>ks'. (combo_key f1, ks') \<in> set groups \<longrightarrow> ks' = ks)"
    by blast
  show "\<forall>f. distinct f \<and> set f = set f1 \<longrightarrow> combo_key f = combo_key f1"
    using d1 by (auto intro: combo_key_set)
qed

text \<open>
  The articles on silver and gold, under whichever names, share one group; the
  combination is the same for both listings of the set.
\<close>

theorem same_set_same_group_witness:
  "combinations_loop example_env three_articles [] \<lparr>mono = 0, binary = 0, ternary = 0, other = 0\<rparr>
     = Inr ([([u ''Titania''], [u ''k1'']), ([u ''Gold'', u ''Silver''], [u ''k2'', u ''k3''])],
            \<lparr>mono = 1, binary = 2, ternary = 0, other = 0\<rparr>)
   \<and> (\<exists>ks. (combo_key [u ''Silver'', u ''Gold''], ks)
              \<in> set [([u ''Titania''], [u ''k1'']), ([u ''Gold'', u ''Silver''], [u ''k2'', u ''k3''])]
            \<and> u ''k2'' \<in> set ks \<and> u ''k3'' \<in> set ks)
   \<and> combo_key [u ''Gold'', u ''Silver''] = combo_key [u ''Silver'', u ''Gold'']"
proof -
  let ?groups = "[([u ''Titania''], [u ''k1'']), ([u ''Gold'', u ''Silver''], [u ''k2'', u ''k3''])]"
  have f0: "nanoparticles_of example_env (u ''TiO2'') = Inr [u ''Titania'']"
    by (simp add: detect_eval del: detect_del)
  have f1: "nanoparticles_of example_env (u ''silver gold'') = Inr [u ''Silver'', u ''Gold'']"
    by (simp add: detect_eval del: detect_del)
  have f2: "nanoparticles_of example_env (u ''Au Ag'') = Inr [u ''Silver'', u ''Gold'']"
    by (simp add: detect_eval del: detect_del)
  have loop: "combinations_loop example_env three_articles []
                \<lparr>mono = 0, binary = 0, ternary = 0, other = 0\<rparr>
              = Inr (?groups, \<lparr>mono = 1, binary = 2, ternary = 0, other = 0\<rparr>)"
    unfolding three_articles_def
    by (simp only: combinations_loop.simps f0 f1 f2 sum.case Let_def)
       (simp add: combo_key_def count_article_def u_def cp_def)
  have m1: "(u ''silver gold'', u ''k2'') \<in> set three_articles"
    and m2: "(u ''Au Ag'', u ''k3'') \<in> set three_articles"
    by (simp_all add: three_articles_def)
  have same: "set [u ''Silver'', u ''Gold''] = set [u ''Silver'', u ''Gold'']"
    and ne: "[u ''Silver'', u ''Gold''] \<noteq> []"
    by simp_all
  note both = same_set_same_group [OF loop m1 m2 f1 f2 same ne]
  from both have group: "\<exists>ks. (combo_key [u ''Silver'', u ''Gold''], ks) \<in> set ?groups
        \<and> u ''k2'' \<in> set ks \<and> u ''k3'' \<in> set ks
        \<and> (\<forall>ks'. (combo_key [u ''Silver'', u ''Gold''], ks') \<in> set ?groups \<longrightarrow> ks' = ks)"
    by (rule conjunct1)
  then have group': "\<exists>ks. (combo_key [u ''Silver'', u ''Gold''], ks) \<in> set ?groups
        \<and> u ''k2'' \<in> set ks \<and> u ''k3'' \<in> set ks"
    by blast
  from both have indep: "\<forall>f. distinct f \<and> set f = set [u ''Silver'', u ''Gold'']
        \<longrightarrow> combo_key f = combo_key [u ''Silver'', u ''Gold'']"
    by (rule conjunct2)
  have "distinct [u ''Gold'', u ''Silver'']"
    by (simp add: u_def cp_def)
  moreover have "set [u ''Gold'', u ''Silver''] = set [u ''Silver'', u ''Gold'']"
    by (simp add: insert_commute)
  ultimately have "combo_key [u ''Gold'', u ''Silver''] = combo_key [u ''Silver'', u ''Gold'']"
    using indep by blast
  with loop group' show ?thesis by (intro conjI)
qed

end
